theory Spec2Isabelle
  imports Main "HOL-Library.Sublist"
begin

section \<open>Strings as the handlers use them\<close>

text \<open>
  A Python \<open>str\<close> is a sequence of code points; the model takes the code points below 256,
  one \<^typ>\<open>char\<close> each, so that \<open>len\<close> is \<^const>\<open>length\<close>.
\<close>

definition isspace :: "char \<Rightarrow> bool" where
  \<comment> \<open>\<open>str.isspace\<close> on one character: TAB..CR, FS..US, SPACE, NEL and NBSP.\<close>
  "isspace c = (let n = (of_char c :: nat) in
     (9 \<le> n \<and> n \<le> 13) \<or> (28 \<le> n \<and> n \<le> 32) \<or> n = 133 \<or> n = 160)"

definition strip :: "string \<Rightarrow> string" where
  \<comment> \<open>\<open>str.strip()\<close>: leading and trailing whitespace removed.\<close>
  "strip s = rev (dropWhile isspace (rev (dropWhile isspace s)))"

definition digit_of :: "char \<Rightarrow> nat option" where
  "digit_of c = (let n = (of_char c :: nat) in
     if 48 \<le> n \<and> n \<le> 57 then Some (n - 48) else None)"

fun py_digits :: "nat \<Rightarrow> string \<Rightarrow> nat option" where
  \<comment> \<open>the digits after the first one; a single underscore may stand between two digits\<close>
  "py_digits acc [] = Some acc"
| "py_digits acc [c] = (case digit_of c of None \<Rightarrow> None | Some v \<Rightarrow> Some (10 * acc + v))"
| "py_digits acc (c # d # ds) =
     (if c = CHR ''_'' then
        (case digit_of d of None \<Rightarrow> None | Some v \<Rightarrow> py_digits (10 * acc + v) ds)
      else
        (case digit_of c of None \<Rightarrow> None | Some v \<Rightarrow> py_digits (10 * acc + v) (d # ds)))"

definition py_nat :: "string \<Rightarrow> nat option" where
  "py_nat s = (case s of [] \<Rightarrow> None
     | c # cs \<Rightarrow> (case digit_of c of None \<Rightarrow> None | Some v \<Rightarrow> py_digits v cs))"

definition py_int :: "nat \<Rightarrow> string \<Rightarrow> int option" where
  \<comment> \<open>\<open>int(s)\<close> on a stripped string, \<open>None\<close> for \<open>ValueError\<close>. An optional sign, then
      digits. \<open>lim\<close> is the interpreter's \<open>sys.get_int_max_str_digits()\<close>: with
      \<open>lim > 0\<close> a string of more than \<open>lim\<close> digits is a \<open>ValueError\<close> too.\<close>
  "py_int lim s =
     (if lim > 0 \<and> length (filter (\<lambda>c. digit_of c \<noteq> None) s) > lim then None
      else case s of [] \<Rightarrow> None
        | c # cs \<Rightarrow>
            if c = CHR ''-'' then map_option (\<lambda>n. - int n) (py_nat cs)
            else if c = CHR ''+'' then map_option int (py_nat cs)
            else map_option int (py_nat s))"

section \<open>The users table\<close>

text \<open>
  The model \<open>User\<close>, table \<open>users\<close>, on the SQLite engine the application configures by
  default (\<open>sqlite:///exam_app.db\<close>) and its tests use. The table is the list of its rows in
  rowid order. What the engine does is written out: the primary key and the \<open>UNIQUE\<close>
  constraint on \<open>email\<close> are enforced (comparison of text is exact, collation
  \<open>BINARY\<close>), the declared lengths \<open>String(50)\<close> and \<open>String(120)\<close> are not. Failures of
  the storage itself are outside the model.
\<close>

type_synonym timestamp = nat

record user =
  id' :: nat  \<comment> \<open>the column \<open>id\<close>\<close>
  first_name :: string
  last_name :: string
  email :: string
  age :: int
  city :: string
  created_at :: timestamp

datatype db_error =
    IntegrityError      \<comment> \<open>UNIQUE constraint failed: users.email\<close>
  | OperationalError    \<comment> \<open>LIKE or GLOB pattern too complex\<close>

definition max_rowid :: int where
  \<comment> \<open>the largest value of SQLite's 64-bit \<open>INTEGER\<close>; the driver refuses to bind a larger
      one (\<open>OverflowError\<close>)\<close>
  "max_rowid = 2 ^ 63 - 1"

definition query_get :: "user list \<Rightarrow> nat \<Rightarrow> user option" where
  \<comment> \<open>\<open>User.query.get(user_id)\<close>: the row of that primary key\<close>
  "query_get rows i = find (\<lambda>u. id' u = i) rows"

definition filter_by_email_first :: "user list \<Rightarrow> string \<Rightarrow> user option" where
  \<comment> \<open>\<open>User.query.filter_by(email=email).first()\<close>\<close>
  "filter_by_email_first rows e = find (\<lambda>u. email u = e) rows"

definition next_id :: "user list \<Rightarrow> nat" where
  \<comment> \<open>the rowid of an \<open>INTEGER PRIMARY KEY\<close>: one more than the largest in the table,
      1 in an empty table. (Once the largest is \<^const>\<open>max_rowid\<close> SQLite looks for an unused
      rowid at random; the model does not follow it there.)\<close>
  "next_id rows = Suc (fold max (map id' rows) 0)"

definition add_commit ::
  "timestamp \<Rightarrow> user list \<Rightarrow> string \<Rightarrow> string \<Rightarrow> string \<Rightarrow> int \<Rightarrow> string \<Rightarrow> db_error + user list" where
  \<comment> \<open>\<open>db.session.add(User(...)); db.session.commit()\<close>: the \<open>INSERT\<close> assigns \<open>id\<close> and
      the default of \<open>created_at\<close> (\<open>datetime.utcnow\<close>, here \<open>now\<close>)\<close>
  "add_commit now rows fn ln em ag ci =
     (if \<exists>v \<in> set rows. email v = em then Inl IntegrityError
      else Inr (rows @ [\<lparr>id' = next_id rows, first_name = fn, last_name = ln, email = em,
                          age = ag, city = ci, created_at = now\<rparr>]))"

definition update_commit :: "user list \<Rightarrow> user \<Rightarrow> db_error + user list" where
  \<comment> \<open>\<open>db.session.commit()\<close> after the five attributes of the loaded row \<open>u\<close> were set:
      \<open>UPDATE users SET ... WHERE users.id = ?\<close>\<close>
  "update_commit rows u =
     (if \<exists>v \<in> set rows. id' v \<noteq> id' u \<and> email v = email u then Inl IntegrityError
      else Inr (map (\<lambda>v. if id' v = id' u
                         then v\<lparr>first_name := first_name u, last_name := last_name u,
                                email := email u, age := age u, city := city u\<rparr>
                         else v) rows))"

definition delete_commit :: "user list \<Rightarrow> user \<Rightarrow> user list" where
  \<comment> \<open>\<open>db.session.delete(user); db.session.commit()\<close>\<close>
  "delete_commit rows u = filter (\<lambda>v. id' v \<noteq> id' u) rows"

section \<open>Requests and responses\<close>

datatype field = First_name | Last_name | Email | Age | City

type_synonym form = "field \<Rightarrow> string option"

definition form_get :: "form \<Rightarrow> field \<Rightarrow> string" where
  \<comment> \<open>\<open>request.form.get(key, '')\<close>\<close>
  "form_get f k = (case f k of None \<Rightarrow> [] | Some v \<Rightarrow> v)"

datatype request = GET | POST form

datatype message =
    All_fields_required    \<comment> \<open>All fields are required!\<close>
  | First_name_length      \<comment> \<open>First name must be between 2 and 50 characters!\<close>
  | Last_name_length       \<comment> \<open>Last name must be between 2 and 50 characters!\<close>
  | Age_range              \<comment> \<open>Please enter a valid age (1-150)!\<close>
  | Age_not_number         \<comment> \<open>Age must be a valid number!\<close>
  | City_length            \<comment> \<open>City must be between 2 and 50 characters!\<close>
  | Email_exists           \<comment> \<open>Email already exists! Please use a different email.\<close>
  | User_added             \<comment> \<open>User added successfully!\<close>
  | User_updated           \<comment> \<open>User updated successfully!\<close>
  | User_deleted string string  \<comment> \<open>User (first name) (last name) deleted successfully!\<close>
  | Error_adding db_error       \<comment> \<open>Error adding user: (the exception)\<close>
  | Error_updating db_error     \<comment> \<open>Error updating user: (the exception)\<close>

datatype category = Error | Success

datatype response =
    Render_add                      \<comment> \<open>add.html\<close>
  | Render_view user                \<comment> \<open>view.html, user\<close>
  | Render_update user              \<comment> \<open>update.html, user\<close>
  | Render_search "user list" string  \<comment> \<open>search.html, users, query\<close>
  | Redirect_index                  \<comment> \<open>redirect(url_for('index'))\<close>
  | Not_found                       \<comment> \<open>abort(404) of get_or_404\<close>
  | Server_error                    \<comment> \<open>500.html of internal_error, for an exception nothing caught\<close>

record outcome =
  resp :: response
  flashed :: "(message \<times> category) list"
  table :: "user list"

record env =
  utcnow :: timestamp
  int_max_str_digits :: nat

definition rejected :: "response \<Rightarrow> message \<Rightarrow> user list \<Rightarrow> outcome" where
  \<comment> \<open>\<open>flash(m, 'error'); return render_template(...)\<close>, the table untouched\<close>
  "rejected r m rows = \<lparr>resp = r, flashed = [(m, Error)], table = rows\<rparr>"

definition get_or_404 :: "user list \<Rightarrow> nat \<Rightarrow> response + user" where
  \<comment> \<open>\<open>User.query.get_or_404(user_id)\<close>. The route's \<open>int\<close> converter takes any run of digits;
      binding an identifier above \<^const>\<open>max_rowid\<close> raises \<open>OverflowError\<close>, which no handler
      catches.\<close>
  "get_or_404 rows user_id =
     (if int user_id > max_rowid then Inl Server_error
      else case query_get rows user_id of None \<Rightarrow> Inl Not_found | Some u \<Rightarrow> Inr u)"

section \<open>The handlers\<close>

definition add_user :: "env \<Rightarrow> request \<Rightarrow> user list \<Rightarrow> outcome" where
  "add_user e req rows =
    (case req of
       GET \<Rightarrow> \<lparr>resp = Render_add, flashed = [], table = rows\<rparr>
     | POST f \<Rightarrow>
        (let first_name' = strip (form_get f First_name);
             last_name' = strip (form_get f Last_name);
             email' = strip (form_get f Email);
             age' = strip (form_get f Age);
             city' = strip (form_get f City)
         in
         if \<not> (first_name' \<noteq> [] \<and> last_name' \<noteq> [] \<and> email' \<noteq> [] \<and> age' \<noteq> [] \<and> city' \<noteq> [])
         then rejected Render_add All_fields_required rows
         else if length first_name' < 2 \<or> length first_name' > 50
         then rejected Render_add First_name_length rows
         else if length last_name' < 2 \<or> length last_name' > 50
         then rejected Render_add Last_name_length rows
         else
          (case py_int (int_max_str_digits e) age' of
             None \<Rightarrow> rejected Render_add Age_not_number rows
           | Some a \<Rightarrow>
              if a \<le> 0 \<or> a > 150
              then rejected Render_add Age_range rows
              else if length city' < 2 \<or> length city' > 50
              then rejected Render_add City_length rows
              else
               (case filter_by_email_first rows email' of
                  Some existing_user \<Rightarrow> rejected Render_add Email_exists rows
                | None \<Rightarrow>
                   (case add_commit (utcnow e) rows first_name' last_name' email' a city' of
                      Inr rows' \<Rightarrow>
                        \<lparr>resp = Redirect_index, flashed = [(User_added, Success)], table = rows'\<rparr>
                    | Inl err \<Rightarrow> rejected Render_add (Error_adding err) rows)))))"

definition view_user :: "nat \<Rightarrow> user list \<Rightarrow> outcome" where
  "view_user user_id rows =
    (case get_or_404 rows user_id of
       Inl r \<Rightarrow> \<lparr>resp = r, flashed = [], table = rows\<rparr>
     | Inr u \<Rightarrow> \<lparr>resp = Render_view u, flashed = [], table = rows\<rparr>)"

definition update_user :: "env \<Rightarrow> nat \<Rightarrow> request \<Rightarrow> user list \<Rightarrow> outcome" where
  "update_user e user_id req rows =
    (case get_or_404 rows user_id of
       Inl r \<Rightarrow> \<lparr>resp = r, flashed = [], table = rows\<rparr>
     | Inr u \<Rightarrow>
      (case req of
         GET \<Rightarrow> \<lparr>resp = Render_update u, flashed = [], table = rows\<rparr>
       | POST f \<Rightarrow>
        (let first_name' = strip (form_get f First_name);
             last_name' = strip (form_get f Last_name);
             email' = strip (form_get f Email);
             age' = strip (form_get f Age);
             city' = strip (form_get f City)
         in
         if \<not> (first_name' \<noteq> [] \<and> last_name' \<noteq> [] \<and> email' \<noteq> [] \<and> age' \<noteq> [] \<and> city' \<noteq> [])
         then rejected (Render_update u) All_fields_required rows
         else if length first_name' < 2 \<or> length first_name' > 50
         then rejected (Render_update u) First_name_length rows
         else if length last_name' < 2 \<or> length last_name' > 50
         then rejected (Render_update u) Last_name_length rows
         else
          (case py_int (int_max_str_digits e) age' of
             None \<Rightarrow> rejected (Render_update u) Age_not_number rows
           | Some a \<Rightarrow>
              if a \<le> 0 \<or> a > 150
              then rejected (Render_update u) Age_range rows
              else if length city' < 2 \<or> length city' > 50
              then rejected (Render_update u) City_length rows
              else
               if (case filter_by_email_first rows email' of
                     Some existing_user \<Rightarrow> id' existing_user \<noteq> user_id
                   | None \<Rightarrow> False)
               then rejected (Render_update u) Email_exists rows
               else
                (case update_commit rows
                        (u\<lparr>first_name := first_name', last_name := last_name', email := email',
                           age := a, city := city'\<rparr>) of
                   Inr rows' \<Rightarrow>
                     \<lparr>resp = Redirect_index, flashed = [(User_updated, Success)], table = rows'\<rparr>
                 | Inl err \<Rightarrow> rejected (Render_update u) (Error_updating err) rows)))))"

definition delete_user :: "nat \<Rightarrow> user list \<Rightarrow> outcome" where
  \<comment> \<open>the \<open>except\<close> branch answers a failure of the storage, which the model leaves out\<close>
  "delete_user user_id rows =
    (case get_or_404 rows user_id of
       Inl r \<Rightarrow> \<lparr>resp = r, flashed = [], table = rows\<rparr>
     | Inr u \<Rightarrow>
        \<lparr>resp = Redirect_index,
         flashed = [(User_deleted (first_name u) (last_name u), Success)],
         table = delete_commit rows u\<rparr>)"

subsection \<open>Search\<close>










section \<open>The invariant the table's constraints keep\<close>

definition wf_table :: "user list \<Rightarrow> bool" where
  \<comment> \<open>\<open>primary_key=True\<close> on the \<open>Integer\<close> column \<open>id\<close>, and \<open>unique=True\<close> on \<open>email\<close>\<close>
  "wf_table rows =
     (distinct (map id' rows) \<and> distinct (map email rows)
      \<and> list_all (\<lambda>u. int (id' u) \<le> max_rowid) rows)"

section \<open>The validator as the specification words it\<close>

text \<open>
  The specification lists the checks of a submitted field set in a fixed order and lets the
  first failing one give the reason. The definitions of this section follow those words;
  the handlers above follow the code, and the two are compared below.
\<close>

definition check_presence :: "form \<Rightarrow> message option" where
  "check_presence f =
     (if list_all (\<lambda>k. strip (form_get f k) \<noteq> []) [First_name, Last_name, Email, Age, City]
      then None else Some All_fields_required)"

definition check_first_name :: "form \<Rightarrow> message option" where
  "check_first_name f =
     (let n = length (strip (form_get f First_name)) in
      if 2 \<le> n \<and> n \<le> 50 then None else Some First_name_length)"

definition check_last_name :: "form \<Rightarrow> message option" where
  "check_last_name f =
     (let n = length (strip (form_get f Last_name)) in
      if 2 \<le> n \<and> n \<le> 50 then None else Some Last_name_length)"

definition check_age_format :: "nat \<Rightarrow> form \<Rightarrow> message option" where
  "check_age_format lim f =
     (case py_int lim (strip (form_get f Age)) of None \<Rightarrow> Some Age_not_number | Some a \<Rightarrow> None)"

definition check_age_range :: "nat \<Rightarrow> form \<Rightarrow> message option" where
  "check_age_range lim f =
     (case py_int lim (strip (form_get f Age)) of
        None \<Rightarrow> None
      | Some a \<Rightarrow> if 1 \<le> a \<and> a \<le> 150 then None else Some Age_range)"

definition check_city :: "form \<Rightarrow> message option" where
  "check_city f =
     (let n = length (strip (form_get f City)) in
      if 2 \<le> n \<and> n \<le> 50 then None else Some City_length)"

definition checks_in_order :: "nat \<Rightarrow> (form \<Rightarrow> message option) list" where
  "checks_in_order lim =
     [check_presence, check_first_name, check_last_name,
      check_age_format lim, check_age_range lim, check_city]"

fun first_failing :: "('a \<Rightarrow> 'b option) list \<Rightarrow> 'a \<Rightarrow> 'b option" where
  "first_failing [] x = None"
| "first_failing (c # cs) x = (case c x of Some m \<Rightarrow> Some m | None \<Rightarrow> first_failing cs x)"

definition validation_message :: "message \<Rightarrow> bool" where
  "validation_message m =
     (m \<in> {All_fields_required, First_name_length, Last_name_length,
            Age_not_number, Age_range, City_length})"


section \<open>The fixtures of the test suite\<close>

definition sample_user :: form where
  "sample_user = [First_name \<mapsto> ''John'', Last_name \<mapsto> ''Doe'',
     Email \<mapsto> ''john.doe@example.com'', Age \<mapsto> ''30'', City \<mapsto> ''New York'']"

definition created_user :: user where
  "created_user = \<lparr>id' = 1, first_name = ''John'', last_name = ''Doe'',
     email = ''john.doe@example.com'', age = 30, city = ''New York'', created_at = 1000\<rparr>"

definition user2 :: user where
  "user2 = \<lparr>id' = 2, first_name = ''Jane'', last_name = ''Doe'',
     email = ''jane.doe@example.com'', age = 25, city = ''Boston'', created_at = 1001\<rparr>"

definition test_env :: env where
  "test_env = \<lparr>utcnow = 2000, int_max_str_digits = 4300\<rparr>"

section \<open>The handlers against the validator\<close>

lemmas check_defs = checks_in_order_def check_presence_def check_first_name_def
  check_last_name_def check_age_format_def check_age_range_def check_city_def

lemmas eval_defs = strip_def isspace_def form_get_def py_int_def py_nat_def digit_of_def
  sample_user_def created_user_def user2_def test_env_def

lemma py_int_Nil: "py_int lim [] = None"
  by (simp add: py_int_def)

text \<open>The six checks, first failure first, are the chain of tests both handlers run.\<close>

lemma first_failing_checks:
  "first_failing (checks_in_order lim) f =
     (let first_name' = strip (form_get f First_name);
          last_name' = strip (form_get f Last_name);
          email' = strip (form_get f Email);
          age' = strip (form_get f Age);
          city' = strip (form_get f City)
      in
      if \<not> (first_name' \<noteq> [] \<and> last_name' \<noteq> [] \<and> email' \<noteq> [] \<and> age' \<noteq> [] \<and> city' \<noteq> [])
      then Some All_fields_required
      else if length first_name' < 2 \<or> length first_name' > 50 then Some First_name_length
      else if length last_name' < 2 \<or> length last_name' > 50 then Some Last_name_length
      else (case py_int lim age' of
              None \<Rightarrow> Some Age_not_number
            | Some a \<Rightarrow>
                if a \<le> 0 \<or> a > 150 then Some Age_range
                else if length city' < 2 \<or> length city' > 50 then Some City_length
                else None))"
  by (simp add: check_defs Let_def split: option.split)

lemma first_failing_None:
  "first_failing (checks_in_order lim) f = None \<longleftrightarrow>
     (2 \<le> length (strip (form_get f First_name)) \<and> length (strip (form_get f First_name)) \<le> 50 \<and>
      2 \<le> length (strip (form_get f Last_name)) \<and> length (strip (form_get f Last_name)) \<le> 50 \<and>
      strip (form_get f Email) \<noteq> [] \<and>
      (\<exists>a. py_int lim (strip (form_get f Age)) = Some a \<and> 1 \<le> a \<and> a \<le> 150) \<and>
      2 \<le> length (strip (form_get f City)) \<and> length (strip (form_get f City)) \<le> 50)"
  by (auto simp: first_failing_checks Let_def py_int_Nil split: option.splits if_splits)

lemma add_user_POST:
  "add_user e (POST f) rows =
     (case first_failing (checks_in_order (int_max_str_digits e)) f of
        Some m \<Rightarrow> rejected Render_add m rows
      | None \<Rightarrow>
         (case filter_by_email_first rows (strip (form_get f Email)) of
            Some existing_user \<Rightarrow> rejected Render_add Email_exists rows
          | None \<Rightarrow>
             (case add_commit (utcnow e) rows (strip (form_get f First_name))
                     (strip (form_get f Last_name)) (strip (form_get f Email))
                     (the (py_int (int_max_str_digits e) (strip (form_get f Age))))
                     (strip (form_get f City)) of
                Inr rows' \<Rightarrow>
                  \<lparr>resp = Redirect_index, flashed = [(User_added, Success)], table = rows'\<rparr>
              | Inl err \<Rightarrow> rejected Render_add (Error_adding err) rows)))"
  by (simp add: first_failing_checks add_user_def Let_def split: option.split)

lemma get_or_404_found:
  "int i \<le> max_rowid \<Longrightarrow> query_get rows i = Some u \<Longrightarrow> get_or_404 rows i = Inr u"
  by (simp add: get_or_404_def)

lemma get_or_404_absent:
  "int i \<le> max_rowid \<Longrightarrow> query_get rows i = None \<Longrightarrow> get_or_404 rows i = Inl Not_found"
  by (simp add: get_or_404_def)

lemma get_or_404_overflow: "max_rowid < int i \<Longrightarrow> get_or_404 rows i = Inl Server_error"
  by (simp add: get_or_404_def)

lemma get_or_404_Inr:
  "get_or_404 rows i = Inr u \<Longrightarrow> int i \<le> max_rowid \<and> query_get rows i = Some u"
  by (simp add: get_or_404_def split: if_splits option.splits)

lemma get_or_404_Inl:
  "get_or_404 rows i = Inl r \<Longrightarrow> r = Server_error \<or> r = Not_found"
  by (auto simp: get_or_404_def split: if_splits option.splits)

lemma update_user_POST:
  "int i \<le> max_rowid \<Longrightarrow> query_get rows i = Some u \<Longrightarrow>
   update_user e i (POST f) rows =
     (case first_failing (checks_in_order (int_max_str_digits e)) f of
        Some m \<Rightarrow> rejected (Render_update u) m rows
      | None \<Rightarrow>
         if (case filter_by_email_first rows (strip (form_get f Email)) of
               Some existing_user \<Rightarrow> id' existing_user \<noteq> i
             | None \<Rightarrow> False)
         then rejected (Render_update u) Email_exists rows
         else
          (case update_commit rows
                  (u\<lparr>first_name := strip (form_get f First_name),
                     last_name := strip (form_get f Last_name),
                     email := strip (form_get f Email),
                     age := the (py_int (int_max_str_digits e) (strip (form_get f Age))),
                     city := strip (form_get f City)\<rparr>) of
             Inr rows' \<Rightarrow>
               \<lparr>resp = Redirect_index, flashed = [(User_updated, Success)], table = rows'\<rparr>
           | Inl err \<Rightarrow> rejected (Render_update u) (Error_updating err) rows))"
  by (simp add: first_failing_checks update_user_def get_or_404_found Let_def
      split: option.split)

lemma update_user_unresolved:
  "get_or_404 rows i = Inl r \<Longrightarrow>
   update_user e i req rows = \<lparr>resp = r, flashed = [], table = rows\<rparr>"
  by (simp add: update_user_def)

lemma update_user_GET:
  "get_or_404 rows i = Inr u \<Longrightarrow>
   update_user e i GET rows = \<lparr>resp = Render_update u, flashed = [], table = rows\<rparr>"
  by (simp add: update_user_def)

section \<open>Facts about the table and the search\<close>

lemma fold_max_ge: "(a::nat) \<le> fold max xs a"
proof (induction xs arbitrary: a)
  case Nil
  show ?case by simp
next
  case (Cons x xs)
  have "a \<le> max x a" by simp
  also have "\<dots> \<le> fold max xs (max x a)" by (rule Cons.IH)
  finally show ?case by simp
qed

lemma fold_max_member: "x \<in> set xs \<Longrightarrow> (x::nat) \<le> fold max xs a"
proof (induction xs arbitrary: a)
  case Nil
  then show ?case by simp
next
  case (Cons y ys)
  show ?case
  proof (cases "x = y")
    case True
    have "x \<le> max y a" using True by simp
    also have "\<dots> \<le> fold max ys (max y a)" by (rule fold_max_ge)
    finally show ?thesis by simp
  next
    case False
    with Cons.prems have "x \<in> set ys" by simp
    then show ?thesis using Cons.IH by simp
  qed
qed

lemma next_id_fresh: "u \<in> set rows \<Longrightarrow> id' u < next_id rows"
  using fold_max_member [of "id' u" "map id' rows" 0] by (simp add: next_id_def)


lemma query_get_None: "query_get rows i = None \<longleftrightarrow> (\<forall>u \<in> set rows. id' u \<noteq> i)"
  by (auto simp: query_get_def find_None_iff)

lemma query_get_Some: "query_get rows i = Some u \<Longrightarrow> u \<in> set rows \<and> id' u = i"
  by (auto simp: query_get_def find_Some_iff)

lemma filter_by_email_first_None:
  "filter_by_email_first rows e = None \<longleftrightarrow> (\<forall>u \<in> set rows. email u \<noteq> e)"
  by (auto simp: filter_by_email_first_def find_None_iff)

lemma filter_by_email_first_Some:
  "filter_by_email_first rows e = Some u \<Longrightarrow> u \<in> set rows \<and> email u = e"
  by (auto simp: filter_by_email_first_def find_Some_iff)


lemma unique_email:
  "wf_table rows \<Longrightarrow> u \<in> set rows \<Longrightarrow> v \<in> set rows \<Longrightarrow> email u = email v \<Longrightarrow> u = v"
  by (auto simp: wf_table_def distinct_map dest: inj_onD)

lemma unique_id:
  "wf_table rows \<Longrightarrow> u \<in> set rows \<Longrightarrow> v \<in> set rows \<Longrightarrow> id' u = id' v \<Longrightarrow> u = v"
  by (auto simp: wf_table_def distinct_map dest: inj_onD)

lemma filter_by_email_first_found:
  "u \<in> set rows \<Longrightarrow> \<exists>v. filter_by_email_first rows (email u) = Some v"
  by (cases "filter_by_email_first rows (email u)") (auto simp: filter_by_email_first_None)

lemma filter_by_email_first_unique:
  assumes "wf_table rows" and "u \<in> set rows"
  shows "filter_by_email_first rows (email u) = Some u"
proof -
  obtain v where v: "filter_by_email_first rows (email u) = Some v"
    using filter_by_email_first_found [OF assms(2)] by blast
  then have "v \<in> set rows" and "email v = email u"
    by (auto dest: filter_by_email_first_Some)
  with assms have "v = u" by (auto dest: unique_email)
  with v show ?thesis by simp
qed

lemma add_commit_duplicate:
  "u \<in> set rows \<Longrightarrow> add_commit now rows fn ln (email u) ag ci = Inl IntegrityError"
  by (auto simp: add_commit_def)

lemma add_user_table_failed:
  "resp (add_user e req rows) \<noteq> Redirect_index \<Longrightarrow> table (add_user e req rows) = rows"
proof (cases req)
  case GET
  then show ?thesis by (simp add: add_user_def)
next
  case (POST f)
  assume "resp (add_user e req rows) \<noteq> Redirect_index"
  with POST show ?thesis
    by (simp add: add_user_POST rejected_def split: option.splits sum.splits)
qed

lemma update_commit_result:
  "update_commit rows u = Inr rows' \<Longrightarrow>
   rows' = map (\<lambda>v. if id' v = id' u
                     then v\<lparr>first_name := first_name u, last_name := last_name u,
                            email := email u, age := age u, city := city u\<rparr>
                     else v) rows"
  by (simp add: update_commit_def split: if_splits)

lemma update_commit_own_email:
  assumes "wf_table rows" and "u \<in> set rows" and "email w = email u" and "id' w = id' u"
  shows "update_commit rows w =
     Inr (map (\<lambda>v. if id' v = id' w
                     then v\<lparr>first_name := first_name w, last_name := last_name w,
                            email := email w, age := age w, city := city w\<rparr>
                     else v) rows)"
proof -
  have "\<not> (\<exists>v \<in> set rows. id' v \<noteq> id' w \<and> email v = email w)"
    using assms by (auto dest: unique_email)
  then show ?thesis by (simp add: update_commit_def)
qed

lemma update_user_success:
  assumes "resp (update_user e i req rows) = Redirect_index"
  shows "\<exists>f u a. req = POST f \<and> query_get rows i = Some u
     \<and> first_failing (checks_in_order (int_max_str_digits e)) f = None
     \<and> py_int (int_max_str_digits e) (strip (form_get f Age)) = Some a
     \<and> update_user e i req rows =
         \<lparr>resp = Redirect_index, flashed = [(User_updated, Success)],
          table = map (\<lambda>v. if id' v = i
                     then v\<lparr>first_name := strip (form_get f First_name),
                            last_name := strip (form_get f Last_name),
                            email := strip (form_get f Email),
                            age := a,
                            city := strip (form_get f City)\<rparr>
                     else v) rows\<rparr>"
proof (cases "get_or_404 rows i")
  case (Inl r)
  with assms get_or_404_Inl [OF Inl] show ?thesis
    by (auto simp: update_user_unresolved)
next
  case (Inr u)
  then have bound: "int i \<le> max_rowid" and Some: "query_get rows i = Some u"
    by (auto dest: get_or_404_Inr)
  then have idu: "id' u = i" by (auto dest: query_get_Some)
  show ?thesis
  proof (cases req)
    case GET
    with Inr assms show ?thesis by (simp add: update_user_GET)
  next
    case (POST f)
    let ?u' = "u\<lparr>first_name := strip (form_get f First_name),
                   last_name := strip (form_get f Last_name),
                   email := strip (form_get f Email),
                   age := the (py_int (int_max_str_digits e) (strip (form_get f Age))),
                   city := strip (form_get f City)\<rparr>"
    from assms POST Some bound
    have valid: "first_failing (checks_in_order (int_max_str_digits e)) f = None"
      by (cases "first_failing (checks_in_order (int_max_str_digits e)) f")
         (simp_all add: update_user_POST rejected_def)
    then obtain a where a: "py_int (int_max_str_digits e) (strip (form_get f Age)) = Some a"
      by (auto simp: first_failing_None)
    from assms POST Some valid bound
    obtain rows' where commit: "update_commit rows ?u' = Inr rows'"
      and out: "update_user e i req rows =
         \<lparr>resp = Redirect_index, flashed = [(User_updated, Success)], table = rows'\<rparr>"
      by (cases "update_commit rows ?u'")
         (simp_all add: update_user_POST rejected_def split: if_splits)
    from update_commit_result [OF commit] idu a out POST Some valid
    show ?thesis by simp
  qed
qed

lemma query_get_filter_absent: "query_get (filter (\<lambda>v. id' v \<noteq> i) rows) i = None"
  by (simp add: query_get_None)

lemma first_failing_age:
  assumes "2 \<le> length (strip (form_get f First_name))"
          "length (strip (form_get f First_name)) \<le> 50"
    and "2 \<le> length (strip (form_get f Last_name))"
        "length (strip (form_get f Last_name)) \<le> 50"
    and "strip (form_get f Email) \<noteq> []"
    and "strip (form_get f City) \<noteq> []"
  shows "first_failing (checks_in_order lim) f =
     (if strip (form_get f Age) = [] then Some All_fields_required
      else case py_int lim (strip (form_get f Age)) of
             None \<Rightarrow> Some Age_not_number
           | Some a \<Rightarrow>
               if a < 1 \<or> 150 < a then Some Age_range
               else if length (strip (form_get f City)) < 2 \<or> 50 < length (strip (form_get f City))
               then Some City_length else None)"
proof -
  have "strip (form_get f First_name) \<noteq> []" "strip (form_get f Last_name) \<noteq> []"
    using assms(1,3) by auto
  with assms show ?thesis
    by (auto simp: first_failing_checks Let_def split: option.split)
qed






























section \<open>Facts about trimming\<close>

text \<open>
  \<^const>\<open>strip\<close> takes away a run of whitespace at each end, and nothing else: what is
  left neither starts nor ends with whitespace.
\<close>

lemma strip_decomp:
  "\<exists>pre post. s = pre @ strip s @ post \<and> list_all isspace pre \<and> list_all isspace post"
proof -
  let ?t = "dropWhile isspace s"
  have 1: "s = takeWhile isspace s @ ?t" by simp
  have "rev ?t = takeWhile isspace (rev ?t) @ dropWhile isspace (rev ?t)" by simp
  then have "rev (rev ?t) = rev (takeWhile isspace (rev ?t) @ dropWhile isspace (rev ?t))"
    by (rule arg_cong)
  then have 3: "?t = strip s @ rev (takeWhile isspace (rev ?t))"
    by (simp only: rev_rev_ident rev_append strip_def)
  have "s = takeWhile isspace s @ strip s @ rev (takeWhile isspace (rev ?t))"
    using 1 3 by metis
  moreover have "list_all isspace (takeWhile isspace s)"
    by (auto simp: list_all_iff dest: set_takeWhileD)
  moreover have "list_all isspace (rev (takeWhile isspace (rev ?t)))"
    by (auto simp: list_all_iff dest: set_takeWhileD)
  ultimately show ?thesis by blast
qed

lemma strip_ends:
  assumes "strip s \<noteq> []"
  shows "\<not> isspace (hd (strip s)) \<and> \<not> isspace (last (strip s))"
proof -
  define t where "t = dropWhile isspace s"
  define r where "r = dropWhile isspace (rev t)"
  have strip: "strip s = rev r" by (simp add: strip_def r_def t_def)
  with assms have r: "r \<noteq> []" by simp
  then have "\<not> isspace (hd r)" unfolding r_def by (rule hd_dropWhile)
  then have last: "\<not> isspace (last (strip s))"
    using r by (simp add: strip last_rev)
  have split: "rev t = takeWhile isspace (rev t) @ r" by (simp add: r_def)
  have t: "t \<noteq> []"
  proof
    assume "t = []"
    with split have "takeWhile isspace (rev t) @ r = []" by simp
    with r show False by simp
  qed
  then have "\<not> isspace (hd t)" unfolding t_def by (rule hd_dropWhile)
  moreover have "last r = last (rev t)"
  proof -
    have "last (rev t) = last (takeWhile isspace (rev t) @ r)"
      by (rule arg_cong [where f = last, OF split])
    with r show ?thesis by simp
  qed
  moreover have "last (rev t) = hd t" using t by (simp add: last_rev)
  moreover have "hd (strip s) = last r" using r by (simp add: strip hd_rev)
  ultimately have "\<not> isspace (hd (strip s))" by simp
  with last show ?thesis by simp
qed

lemma strip_strip: "strip (strip s) = strip s"
proof (cases "strip s = []")
  case True
  show ?thesis by (simp only: True) (simp add: strip_def)
next
  case False
  define t where "t = strip s"
  from strip_ends [OF False] False
  have h: "\<not> isspace (hd t)" and l: "\<not> isspace (last t)" and ne: "t \<noteq> []"
    by (simp_all add: t_def)
  from ne h have 1: "dropWhile isspace t = t"
    by (cases t) auto
  from ne l have 2: "dropWhile isspace (rev t) = rev t"
    by (cases t rule: rev_cases) auto
  have "strip t = t"
    by (subst strip_def) (simp only: 1 2 rev_rev_ident)
  then show ?thesis by (simp only: t_def)
qed

section \<open>The handlers keep the table's invariant\<close>

text \<open>
  \<^const>\<open>wf_table\<close> holds of the empty table and of the table every handler leaves (for
  \<open>add_user\<close> as long as the rowids have not reached the largest), so it holds of every
  table the application reaches.
\<close>

lemma wf_table_empty: "wf_table []"
  by (simp add: wf_table_def)

lemma add_user_success:
  assumes "resp (add_user e req rows) = Redirect_index"
  shows "\<exists>f a. req = POST f
     \<and> first_failing (checks_in_order (int_max_str_digits e)) f = None
     \<and> py_int (int_max_str_digits e) (strip (form_get f Age)) = Some a
     \<and> (\<forall>v \<in> set rows. email v \<noteq> strip (form_get f Email))
     \<and> table (add_user e req rows) =
         rows @ [\<lparr>id' = next_id rows,
                   first_name = strip (form_get f First_name),
                   last_name = strip (form_get f Last_name),
                   email = strip (form_get f Email),
                   age = a,
                   city = strip (form_get f City),
                   created_at = utcnow e\<rparr>]"
proof (cases req)
  case GET
  with assms show ?thesis by (simp add: add_user_def)
next
  case (POST f)
  from assms POST
  have valid: "first_failing (checks_in_order (int_max_str_digits e)) f = None"
    by (cases "first_failing (checks_in_order (int_max_str_digits e)) f")
       (simp_all add: add_user_POST rejected_def)
  then obtain a where a: "py_int (int_max_str_digits e) (strip (form_get f Age)) = Some a"
    by (auto simp: first_failing_None)
  from assms POST valid
  have free: "filter_by_email_first rows (strip (form_get f Email)) = None"
    by (cases "filter_by_email_first rows (strip (form_get f Email))")
       (simp_all add: add_user_POST rejected_def)
  then have unused: "\<forall>v \<in> set rows. email v \<noteq> strip (form_get f Email)"
    by (simp add: filter_by_email_first_None)
  then have "table (add_user e req rows) =
         rows @ [\<lparr>id' = next_id rows,
                   first_name = strip (form_get f First_name),
                   last_name = strip (form_get f Last_name),
                   email = strip (form_get f Email),
                   age = a,
                   city = strip (form_get f City),
                   created_at = utcnow e\<rparr>]"
    using POST valid free a by (simp add: add_user_POST add_commit_def)
  with POST valid a unused show ?thesis by blast
qed

lemma wf_table_add_user:
  assumes "wf_table rows" and "int (next_id rows) \<le> max_rowid"
  shows "wf_table (table (add_user e req rows))"
proof (cases "resp (add_user e req rows) = Redirect_index")
  case False
  then show ?thesis using assms(1) by (simp add: add_user_table_failed)
next
  case True
  from add_user_success [OF True]
  obtain f a where unused: "\<forall>v \<in> set rows. email v \<noteq> strip (form_get f Email)"
    and out: "table (add_user e req rows) =
         rows @ [\<lparr>id' = next_id rows,
                   first_name = strip (form_get f First_name),
                   last_name = strip (form_get f Last_name),
                   email = strip (form_get f Email),
                   age = a,
                   city = strip (form_get f City),
                   created_at = utcnow e\<rparr>]"
    by blast
  have "next_id rows \<notin> id' ` set rows"
    using next_id_fresh [of _ rows] by fastforce
  moreover have "strip (form_get f Email) \<notin> email ` set rows"
    using unused by auto
  ultimately show ?thesis
    using assms by (simp add: out wf_table_def)
qed

lemma wf_table_delete_user:
  assumes "wf_table rows"
  shows "wf_table (table (delete_user i rows))"
proof (cases "get_or_404 rows i")
  case (Inl r)
  then show ?thesis using assms by (simp add: delete_user_def)
next
  case (Inr u)
  then have "table (delete_user i rows) = filter (\<lambda>v. id' v \<noteq> id' u) rows"
    by (simp add: delete_user_def delete_commit_def)
  then show ?thesis
    using assms by (simp add: wf_table_def distinct_map_filter list_all_iff)
qed

lemma update_user_table_failed:
  "resp (update_user e i req rows) \<noteq> Redirect_index \<Longrightarrow> table (update_user e i req rows) = rows"
proof (cases "get_or_404 rows i")
  case (Inl r)
  then show ?thesis by (simp add: update_user_unresolved)
next
  case (Inr u)
  then have bound: "int i \<le> max_rowid" and Some: "query_get rows i = Some u"
    by (auto dest: get_or_404_Inr)
  assume failed: "resp (update_user e i req rows) \<noteq> Redirect_index"
  show ?thesis
  proof (cases req)
    case GET
    with Inr show ?thesis by (simp add: update_user_GET)
  next
    case (POST f)
    with Some bound failed show ?thesis
      by (simp add: update_user_POST rejected_def split: option.splits sum.splits if_splits)
  qed
qed

lemma wf_table_update_user:
  assumes wf: "wf_table rows"
  shows "wf_table (table (update_user e i req rows))"
proof (cases "resp (update_user e i req rows) = Redirect_index")
  case False
  then show ?thesis using wf by (simp add: update_user_table_failed)
next
  case True
  from update_user_success [OF True]
  obtain f u a where req: "req = POST f" and found: "query_get rows i = Some u"
    and valid: "first_failing (checks_in_order (int_max_str_digits e)) f = None"
    and a: "py_int (int_max_str_digits e) (strip (form_get f Age)) = Some a"
    and out: "update_user e i req rows =
         \<lparr>resp = Redirect_index, flashed = [(User_updated, Success)],
          table = map (\<lambda>v. if id' v = i
                     then v\<lparr>first_name := strip (form_get f First_name),
                            last_name := strip (form_get f Last_name),
                            email := strip (form_get f Email),
                            age := a,
                            city := strip (form_get f City)\<rparr>
                     else v) rows\<rparr>"
    by blast
  let ?em = "strip (form_get f Email)"
  let ?g = "\<lambda>v. if id' v = i
                     then v\<lparr>first_name := strip (form_get f First_name),
                            last_name := strip (form_get f Last_name),
                            email := ?em, age := a,
                            city := strip (form_get f City)\<rparr>
                     else v"
  let ?u' = "u\<lparr>first_name := strip (form_get f First_name),
                 last_name := strip (form_get f Last_name),
                 email := ?em,
                 age := the (py_int (int_max_str_digits e) (strip (form_get f Age))),
                 city := strip (form_get f City)\<rparr>"
  from found have idu: "id' u = i" and mem: "u \<in> set rows"
    by (auto dest: query_get_Some)
  from wf mem idu have bound: "int i \<le> max_rowid"
    by (auto simp: wf_table_def list_all_iff)
  have committed: "\<exists>rows'. update_commit rows ?u' = Inr rows'"
    using True req found valid bound
    by (cases "update_commit rows ?u'")
       (simp_all add: update_user_POST rejected_def split: if_splits)
  then have other: "\<forall>v \<in> set rows. id' v \<noteq> i \<longrightarrow> email v \<noteq> ?em"
    using idu by (auto simp: update_commit_def split: if_splits)
  have ids: "map id' (map ?g rows) = map id' rows"
    by (induction rows) simp_all
  have "distinct (map email (map ?g rows))"
    unfolding distinct_conv_nth
  proof (intro allI impI)
    fix k l
    assume k: "k < length (map email (map ?g rows))"
      and l: "l < length (map email (map ?g rows))" and kl: "k \<noteq> l"
    then have k': "k < length rows" and l': "l < length rows" by simp_all
    from wf k' l' kl have idne: "id' (rows ! k) \<noteq> id' (rows ! l)"
      by (auto simp: wf_table_def distinct_conv_nth)
    from wf k' l' kl have emne: "email (rows ! k) \<noteq> email (rows ! l)"
      by (auto simp: wf_table_def distinct_conv_nth)
    from other k' l' have ok: "id' (rows ! k) \<noteq> i \<longrightarrow> email (rows ! k) \<noteq> ?em"
      and ol: "id' (rows ! l) \<noteq> i \<longrightarrow> email (rows ! l) \<noteq> ?em"
      by auto
    from idne emne ok ol k' l'
    show "map email (map ?g rows) ! k \<noteq> map email (map ?g rows) ! l"
      by auto
  qed
  moreover have "distinct (map id' (map ?g rows))"
    using wf by (simp only: ids) (simp add: wf_table_def)
  moreover have "list_all (\<lambda>u. int (id' u) \<le> max_rowid) (map ?g rows)"
    using wf by (auto simp: wf_table_def list_all_iff)
  ultimately show ?thesis
    by (simp add: out wf_table_def)
qed

text \<open>Both handlers write only emails that are not empty after trimming.\<close>

lemma add_user_email_present:
  assumes "resp (add_user e req rows) = Redirect_index"
  shows "email (last (table (add_user e req rows))) \<noteq> []"
proof -
  from add_user_success [OF assms]
  obtain f a where valid: "first_failing (checks_in_order (int_max_str_digits e)) f = None"
    and out: "table (add_user e req rows) =
         rows @ [\<lparr>id' = next_id rows,
                   first_name = strip (form_get f First_name),
                   last_name = strip (form_get f Last_name),
                   email = strip (form_get f Email),
                   age = a,
                   city = strip (form_get f City),
                   created_at = utcnow e\<rparr>]"
    by blast
  from valid have "strip (form_get f Email) \<noteq> []"
    by (simp add: first_failing_None)
  then show ?thesis by (simp add: out)
qed

text \<open>
  Deleting, then reading. For an identifier \<open>i\<close> up to \<^const>\<open>max_rowid\<close>: if a row with
  identifier \<open>i\<close> exists, \<open>delete_user\<close> removes it (the table keeps exactly the rows with
  another identifier) and confirms with the removed row's names, and \<open>view_user\<close> of \<open>i\<close> on
  the table after the deletion answers not-found; if no row has identifier \<open>i\<close>,
  \<open>delete_user\<close> itself answers not-found and the table is unchanged. Above
  \<^const>\<open>max_rowid\<close> both handlers answer with the error page.
\<close>

lemma delete_user_then_view:
  assumes "int i \<le> max_rowid"
  shows "(\<forall>u. query_get rows i = Some u \<longrightarrow>
        delete_user i rows =
          \<lparr>resp = Redirect_index,
           flashed = [(User_deleted (first_name u) (last_name u), Success)],
           table = filter (\<lambda>v. id' v \<noteq> i) rows\<rparr>
      \<and> u \<notin> set (table (delete_user i rows))
      \<and> view_user i (table (delete_user i rows)) =
          \<lparr>resp = Not_found, flashed = [], table = table (delete_user i rows)\<rparr>)
   \<and> (query_get rows i = None \<longrightarrow>
        delete_user i rows = \<lparr>resp = Not_found, flashed = [], table = rows\<rparr>)"
proof (intro conjI allI impI)
  fix u
  assume found: "query_get rows i = Some u"
  then have idu: "id' u = i" by (auto dest: query_get_Some)
  from assms found idu
  show del: "delete_user i rows =
          \<lparr>resp = Redirect_index,
           flashed = [(User_deleted (first_name u) (last_name u), Success)],
           table = filter (\<lambda>v. id' v \<noteq> i) rows\<rparr>"
    by (simp add: delete_user_def get_or_404_found delete_commit_def)
  show "u \<notin> set (table (delete_user i rows))"
    using idu by (simp add: del)
  show "view_user i (table (delete_user i rows)) =
          \<lparr>resp = Not_found, flashed = [], table = table (delete_user i rows)\<rparr>"
    using assms by (simp add: del view_user_def get_or_404_absent query_get_filter_absent)
next
  assume "query_get rows i = None"
  with assms show "delete_user i rows = \<lparr>resp = Not_found, flashed = [], table = rows\<rparr>"
    by (simp add: delete_user_def get_or_404_absent)
qed

lemma delete_user_overflow:
  "max_rowid < int i \<Longrightarrow>
     delete_user i rows = \<lparr>resp = Server_error, flashed = [], table = rows\<rparr>
     \<and> view_user i rows = \<lparr>resp = Server_error, flashed = [], table = rows\<rparr>"
  by (simp add: delete_user_def view_user_def get_or_404_overflow)

section \<open>The claims\<close>

subsection \<open>C1: Create, then Read\<close>



subsection \<open>C2: Create with an email that is taken\<close>

text \<open>
  C2, as stated, promises the duplicate-email error for every field set whose trimmed email
  is that of an existing row. The handler runs the validation checks first, so a field set
  that fails one of them is rejected with that check's reason instead: here the first name
  has one letter.
\<close>

theorem create_duplicate_email_counterexample:
  "strip (form_get (sample_user(First_name \<mapsto> ''J'')) Email) = email created_user
   \<and> add_user test_env (POST (sample_user(First_name \<mapsto> ''J''))) [created_user]
       = \<lparr>resp = Render_add, flashed = [(First_name_length, Error)], table = [created_user]\<rparr>
   \<and> First_name_length \<noteq> Email_exists"
  by (simp add: add_user_POST rejected_def first_failing_checks eval_defs)

text \<open>
  C2, amended. Let the table hold a row with email \<open>e\<close>, and let the trimmed email of the
  field set be \<open>e\<close>. If the field set passes the validation checks, \<open>add_user\<close> fails with
  the duplicate-email error. Whether it passes them or not, \<open>add_user\<close> fails (it renders
  the form again) and the table after the attempt is the table before it. The constraint of
  the table refuses the same insert with an integrity error, whatever the other values.
\<close>

theorem create_duplicate_email:
  assumes "u \<in> set rows" and "strip (form_get f Email) = email u"
  shows "(first_failing (checks_in_order (int_max_str_digits e)) f = None \<longrightarrow>
            add_user e (POST f) rows =
                \<lparr>resp = Render_add, flashed = [(Email_exists, Error)], table = rows\<rparr>)
         \<and> resp (add_user e (POST f) rows) = Render_add
         \<and> table (add_user e (POST f) rows) = rows
         \<and> add_commit now rows fn ln (strip (form_get f Email)) ag ci = Inl IntegrityError"
proof -
  obtain v where "filter_by_email_first rows (strip (form_get f Email)) = Some v"
    using assms filter_by_email_first_found [of u rows] by auto
  then have "add_user e (POST f) rows =
      (case first_failing (checks_in_order (int_max_str_digits e)) f of
         Some m \<Rightarrow>
             \<lparr>resp = Render_add, flashed = [(m, Error)], table = rows\<rparr>
       | None \<Rightarrow>
           \<lparr>resp = Render_add, flashed = [(Email_exists, Error)], table = rows\<rparr>)"
    by (simp add: add_user_POST rejected_def split: option.split)
  moreover have "add_commit now rows fn ln (strip (form_get f Email)) ag ci = Inl IntegrityError"
    using assms by (simp add: add_commit_duplicate)
  ultimately show ?thesis
    by (simp add: rejected_def split: option.split)
qed

text \<open>The sample user submitted a second time.\<close>

theorem create_duplicate_email_witness:
  "add_user test_env (POST sample_user) [created_user] =
     \<lparr>resp = Render_add, flashed = [(Email_exists, Error)], table = [created_user]\<rparr>
   \<and> table (add_user test_env (POST sample_user) [created_user]) = [created_user]
   \<and> add_commit 2000 [created_user] ''John'' ''Doe'' ''john.doe@example.com'' 30 ''New York''
       = Inl IntegrityError"
proof -
  have "created_user \<in> set [created_user]" by simp
  moreover have "strip (form_get sample_user Email) = email created_user"
    by (simp add: eval_defs)
  moreover have "first_failing (checks_in_order (int_max_str_digits test_env)) sample_user = None"
    by (simp add: first_failing_checks eval_defs)
  ultimately show ?thesis
    using create_duplicate_email [of created_user "[created_user]" sample_user test_env
        2000 "''John''" "''Doe''" 30 "''New York''"]
    by (simp add: eval_defs rejected_def)
qed

subsection \<open>C3: Search\<close>




subsection \<open>C4: the order of the validation checks\<close>

text \<open>
  C4. For every submitted field set the checks run in the fixed order presence of the five
  fields, first-name length, last-name length, age format, age range, city length
  (\<^const>\<open>checks_in_order\<close>), and the reason returned is that of the first check that fails:
  \<open>add_user\<close>, and \<open>update_user\<close> on an existing row, render their form again, flash exactly
  that reason as an error, and leave the table as it was. When no check fails, neither
  handler flashes a validation message. Both handlers are functions of the request and the
  table, so the message is determined.
\<close>

theorem validation_order:
  "(first_failing (checks_in_order (int_max_str_digits e)) f = Some m \<longrightarrow>
      add_user e (POST f) rows =
        \<lparr>resp = Render_add, flashed = [(m, Error)], table = rows\<rparr> \<and>
      (\<forall>u. int i \<le> max_rowid \<longrightarrow> query_get rows i = Some u \<longrightarrow>
           update_user e i (POST f) rows =
             \<lparr>resp = Render_update u, flashed = [(m, Error)], table = rows\<rparr>))
   \<and> (first_failing (checks_in_order (int_max_str_digits e)) f = None \<longrightarrow>
      (\<forall>x \<in> set (flashed (add_user e (POST f) rows)). \<not> validation_message (fst x)) \<and>
      (\<forall>x \<in> set (flashed (update_user e i (POST f) rows)). \<not> validation_message (fst x)))"
proof (intro conjI impI allI)
  assume "first_failing (checks_in_order (int_max_str_digits e)) f = Some m"
  then show "add_user e (POST f) rows =
      \<lparr>resp = Render_add, flashed = [(m, Error)], table = rows\<rparr>"
    by (simp add: add_user_POST rejected_def)
next
  fix u
  assume "first_failing (checks_in_order (int_max_str_digits e)) f = Some m"
    and "int i \<le> max_rowid" and "query_get rows i = Some u"
  then show "update_user e i (POST f) rows =
      \<lparr>resp = Render_update u, flashed = [(m, Error)], table = rows\<rparr>"
    by (simp add: update_user_POST rejected_def)
next
  assume "first_failing (checks_in_order (int_max_str_digits e)) f = None"
  then show "\<forall>x \<in> set (flashed (add_user e (POST f) rows)). \<not> validation_message (fst x)"
    by (simp add: add_user_POST rejected_def validation_message_def
        split: option.split sum.split)
next
  assume none: "first_failing (checks_in_order (int_max_str_digits e)) f = None"
  show "\<forall>x \<in> set (flashed (update_user e i (POST f) rows)). \<not> validation_message (fst x)"
  proof (cases "get_or_404 rows i")
    case (Inl r)
    then show ?thesis by (simp add: update_user_unresolved)
  next
    case (Inr u)
    then have "int i \<le> max_rowid" and "query_get rows i = Some u"
      by (auto dest: get_or_404_Inr)
    with none show ?thesis
      by (simp add: update_user_POST rejected_def validation_message_def
          split: option.split sum.split)
  qed
qed

text \<open>
  Field sets that fail several checks at once; both handlers flash the reason of the first.
  A one-letter first name comes before a bad age and a short city; a missing last name
  before the short first name; a short last name before a bad age; an age that is no number
  before a short city; an age out of range before a short city.
\<close>

theorem validation_order_witness:
  "add_user test_env (POST (sample_user(First_name \<mapsto> ''A'', Age \<mapsto> ''abc'', City \<mapsto> ''X''))) []
       = \<lparr>resp = Render_add, flashed = [(First_name_length, Error)], table = []\<rparr>
   \<and> update_user test_env 1 (POST (sample_user(First_name \<mapsto> ''A'', Age \<mapsto> ''abc'', City \<mapsto> ''X'')))
         [created_user]
       = \<lparr>resp = Render_update created_user, flashed = [(First_name_length, Error)],
          table = [created_user]\<rparr>
   \<and> add_user test_env (POST (sample_user(First_name \<mapsto> ''A'', Last_name \<mapsto> ''  ''))) []
       = \<lparr>resp = Render_add, flashed = [(All_fields_required, Error)], table = []\<rparr>
   \<and> add_user test_env (POST (sample_user(Last_name \<mapsto> ''D'', Age \<mapsto> ''abc''))) []
       = \<lparr>resp = Render_add, flashed = [(Last_name_length, Error)], table = []\<rparr>
   \<and> add_user test_env (POST (sample_user(Age \<mapsto> ''abc'', City \<mapsto> ''X''))) []
       = \<lparr>resp = Render_add, flashed = [(Age_not_number, Error)], table = []\<rparr>
   \<and> add_user test_env (POST (sample_user(Age \<mapsto> ''200'', City \<mapsto> ''X''))) []
       = \<lparr>resp = Render_add, flashed = [(Age_range, Error)], table = []\<rparr>
   \<and> add_user test_env (POST (sample_user(City \<mapsto> ''X''))) []
       = \<lparr>resp = Render_add, flashed = [(City_length, Error)], table = []\<rparr>"
proof -
  let ?f1 = "sample_user(First_name \<mapsto> ''A'', Age \<mapsto> ''abc'', City \<mapsto> ''X'')"
  let ?f2 = "sample_user(First_name \<mapsto> ''A'', Last_name \<mapsto> ''  '')"
  let ?f3 = "sample_user(Last_name \<mapsto> ''D'', Age \<mapsto> ''abc'')"
  let ?f4 = "sample_user(Age \<mapsto> ''abc'', City \<mapsto> ''X'')"
  let ?f5 = "sample_user(Age \<mapsto> ''200'', City \<mapsto> ''X'')"
  let ?f6 = "sample_user(City \<mapsto> ''X'')"
  have ff: "first_failing (checks_in_order (int_max_str_digits test_env)) ?f1 = Some First_name_length"
    "first_failing (checks_in_order (int_max_str_digits test_env)) ?f2 = Some All_fields_required"
    "first_failing (checks_in_order (int_max_str_digits test_env)) ?f3 = Some Last_name_length"
    "first_failing (checks_in_order (int_max_str_digits test_env)) ?f4 = Some Age_not_number"
    "first_failing (checks_in_order (int_max_str_digits test_env)) ?f5 = Some Age_range"
    "first_failing (checks_in_order (int_max_str_digits test_env)) ?f6 = Some City_length"
    by (simp_all add: check_defs eval_defs)
  have qg: "query_get [created_user] 1 = Some created_user" "int 1 \<le> max_rowid"
    by (simp_all add: query_get_def created_user_def max_rowid_def)
  from validation_order [of test_env ?f1 First_name_length "[]" 1] ff(1)
  have 1: "add_user test_env (POST ?f1) []
       = \<lparr>resp = Render_add, flashed = [(First_name_length, Error)], table = []\<rparr>"
    by blast
  from validation_order [of test_env ?f1 First_name_length "[created_user]" 1] ff(1) qg
  have 2: "update_user test_env 1 (POST ?f1) [created_user]
       = \<lparr>resp = Render_update created_user, flashed = [(First_name_length, Error)],
          table = [created_user]\<rparr>"
    by blast
  from validation_order [of test_env ?f2 All_fields_required "[]" 1] ff(2)
  have 3: "add_user test_env (POST ?f2) []
       = \<lparr>resp = Render_add, flashed = [(All_fields_required, Error)], table = []\<rparr>"
    by blast
  from validation_order [of test_env ?f3 Last_name_length "[]" 1] ff(3)
  have 4: "add_user test_env (POST ?f3) []
       = \<lparr>resp = Render_add, flashed = [(Last_name_length, Error)], table = []\<rparr>"
    by blast
  from validation_order [of test_env ?f4 Age_not_number "[]" 1] ff(4)
  have 5: "add_user test_env (POST ?f4) []
       = \<lparr>resp = Render_add, flashed = [(Age_not_number, Error)], table = []\<rparr>"
    by blast
  from validation_order [of test_env ?f5 Age_range "[]" 1] ff(5)
  have 6: "add_user test_env (POST ?f5) []
       = \<lparr>resp = Render_add, flashed = [(Age_range, Error)], table = []\<rparr>"
    by blast
  from validation_order [of test_env ?f6 City_length "[]" 1] ff(6)
  have 7: "add_user test_env (POST ?f6) []
       = \<lparr>resp = Render_add, flashed = [(City_length, Error)], table = []\<rparr>"
    by blast
  from 1 2 3 4 5 6 7 show ?thesis by blast
qed

subsection \<open>C5: the age\<close>

text \<open>
  C5, as stated, promises the invalid-age-format message for every age string that does not
  parse. An age that is empty after trimming does not parse, and is reported by the presence
  check, which runs first; and an age that does not parse is not reported at all when an
  earlier check fails, here the length of the first name.
\<close>

theorem age_validation_counterexample:
  "py_int (int_max_str_digits test_env) (strip (form_get (sample_user(Age \<mapsto> '''')) Age)) = None
   \<and> add_user test_env (POST (sample_user(Age \<mapsto> ''''))) []
       = \<lparr>resp = Render_add, flashed = [(All_fields_required, Error)], table = []\<rparr>
   \<and> All_fields_required \<noteq> Age_not_number
   \<and> py_int (int_max_str_digits test_env)
        (strip (form_get (sample_user(First_name \<mapsto> ''J'', Age \<mapsto> ''abc'')) Age)) = None
   \<and> add_user test_env (POST (sample_user(First_name \<mapsto> ''J'', Age \<mapsto> ''abc''))) []
       = \<lparr>resp = Render_add, flashed = [(First_name_length, Error)], table = []\<rparr>
   \<and> First_name_length \<noteq> Age_not_number"
  by (simp add: add_user_POST rejected_def first_failing_checks eval_defs)

text \<open>
  C5, amended. Take a field set whose other four fields are present and whose first and last
  names pass the length checks, so that the checks before the age's pass. Then for every age
  string: if it is empty after trimming, \<open>add_user\<close> rejects it with the missing-fields
  message; if it is not empty and does not parse as an integer, with the invalid-age-format
  message; if it parses to an integer below 1 or above 150, with the age-range message; and if
  it parses to an integer from 1 to 150, the age is accepted: none of these three messages is
  flashed. (\<open>update_user\<close> runs the same chain of checks, by C4.)
\<close>

theorem age_validation:
  assumes fn: "2 \<le> length (strip (form_get f First_name))"
              "length (strip (form_get f First_name)) \<le> 50"
    and ln: "2 \<le> length (strip (form_get f Last_name))"
            "length (strip (form_get f Last_name)) \<le> 50"
    and em: "strip (form_get f Email) \<noteq> []"
    and ci: "strip (form_get f City) \<noteq> []"
  shows "(strip (form_get f Age) = [] \<longrightarrow>
            add_user e (POST f) rows =
                \<lparr>resp = Render_add, flashed = [(All_fields_required, Error)], table = rows\<rparr>)
     \<and> (strip (form_get f Age) \<noteq> [] \<longrightarrow>
          py_int (int_max_str_digits e) (strip (form_get f Age)) = None \<longrightarrow>
            add_user e (POST f) rows =
                \<lparr>resp = Render_add, flashed = [(Age_not_number, Error)], table = rows\<rparr>)
     \<and> (\<forall>a. py_int (int_max_str_digits e) (strip (form_get f Age)) = Some a \<longrightarrow>
            (a < 1 \<or> 150 < a) \<longrightarrow>
            add_user e (POST f) rows =
                \<lparr>resp = Render_add, flashed = [(Age_range, Error)], table = rows\<rparr>)
     \<and> (\<forall>a. py_int (int_max_str_digits e) (strip (form_get f Age)) = Some a \<longrightarrow>
            1 \<le> a \<longrightarrow> a \<le> 150 \<longrightarrow>
            (\<forall>x \<in> set (flashed (add_user e (POST f) rows)).
               fst x \<noteq> All_fields_required \<and> fst x \<noteq> Age_not_number \<and> fst x \<noteq> Age_range))"
proof -
  note ff = first_failing_age [OF fn ln em ci, of "int_max_str_digits e"]
  have 1: "strip (form_get f Age) = [] \<longrightarrow>
            add_user e (POST f) rows =
                \<lparr>resp = Render_add, flashed = [(All_fields_required, Error)], table = rows\<rparr>"
    by (simp add: add_user_POST rejected_def ff)
  have 2: "strip (form_get f Age) \<noteq> [] \<longrightarrow>
          py_int (int_max_str_digits e) (strip (form_get f Age)) = None \<longrightarrow>
            add_user e (POST f) rows =
                \<lparr>resp = Render_add, flashed = [(Age_not_number, Error)], table = rows\<rparr>"
    by (simp add: add_user_POST rejected_def ff)
  have 3: "\<forall>a. py_int (int_max_str_digits e) (strip (form_get f Age)) = Some a \<longrightarrow>
            (a < 1 \<or> 150 < a) \<longrightarrow>
            add_user e (POST f) rows =
                \<lparr>resp = Render_add, flashed = [(Age_range, Error)], table = rows\<rparr>"
    by (auto simp: add_user_POST rejected_def ff py_int_Nil)
  have 4: "\<forall>a. py_int (int_max_str_digits e) (strip (form_get f Age)) = Some a \<longrightarrow>
            1 \<le> a \<longrightarrow> a \<le> 150 \<longrightarrow>
            (\<forall>x \<in> set (flashed (add_user e (POST f) rows)).
               fst x \<noteq> All_fields_required \<and> fst x \<noteq> Age_not_number \<and> fst x \<noteq> Age_range)"
    by (auto simp: add_user_POST ff py_int_Nil rejected_def split: option.splits sum.splits)
  from 1 2 3 4 show ?thesis by blast
qed

text \<open>
  The ages of the specification's examples, in the sample user: \<open>abc\<close> does not parse;
  \<open>0\<close>, \<open>151\<close> and \<open>-5\<close> are out of range; \<open>1\<close> and \<open>150\<close> are accepted and the user is added.
\<close>

theorem age_validation_witness:
  "add_user test_env (POST (sample_user(Age \<mapsto> ''abc''))) [] =
      \<lparr>resp = Render_add, flashed = [(Age_not_number, Error)], table = []\<rparr>
   \<and> add_user test_env (POST (sample_user(Age \<mapsto> ''0''))) [] =
       \<lparr>resp = Render_add, flashed = [(Age_range, Error)], table = []\<rparr>
   \<and> add_user test_env (POST (sample_user(Age \<mapsto> ''151''))) [] =
       \<lparr>resp = Render_add, flashed = [(Age_range, Error)], table = []\<rparr>
   \<and> add_user test_env (POST (sample_user(Age \<mapsto> ''-5''))) [] =
       \<lparr>resp = Render_add, flashed = [(Age_range, Error)], table = []\<rparr>
   \<and> flashed (add_user test_env (POST (sample_user(Age \<mapsto> ''1''))) []) = [(User_added, Success)]
   \<and> flashed (add_user test_env (POST (sample_user(Age \<mapsto> ''150''))) []) = [(User_added, Success)]"
proof -
  have hyps: "\<And>s. 2 \<le> length (strip (form_get (sample_user(Age \<mapsto> s)) First_name))"
    "\<And>s. length (strip (form_get (sample_user(Age \<mapsto> s)) First_name)) \<le> 50"
    "\<And>s. 2 \<le> length (strip (form_get (sample_user(Age \<mapsto> s)) Last_name))"
    "\<And>s. length (strip (form_get (sample_user(Age \<mapsto> s)) Last_name)) \<le> 50"
    "\<And>s. strip (form_get (sample_user(Age \<mapsto> s)) Email) \<noteq> []"
    "\<And>s. strip (form_get (sample_user(Age \<mapsto> s)) City) \<noteq> []"
    by (simp_all add: eval_defs)
  note av = age_validation [OF hyps, of _ test_env "[]"]
  have abc: "py_int (int_max_str_digits test_env) (strip (form_get (sample_user(Age \<mapsto> ''abc'')) Age)) = None"
    and zero: "py_int (int_max_str_digits test_env) (strip (form_get (sample_user(Age \<mapsto> ''0'')) Age)) = Some 0"
    and big: "py_int (int_max_str_digits test_env) (strip (form_get (sample_user(Age \<mapsto> ''151'')) Age)) = Some 151"
    and neg: "py_int (int_max_str_digits test_env) (strip (form_get (sample_user(Age \<mapsto> ''-5'')) Age)) = Some (- 5)"
    by (simp_all add: eval_defs)
  have ne: "strip (form_get (sample_user(Age \<mapsto> ''abc'')) Age) \<noteq> []"
    by (simp add: eval_defs)
  have a: "add_user test_env (POST (sample_user(Age \<mapsto> ''abc''))) [] =
      \<lparr>resp = Render_add, flashed = [(Age_not_number, Error)], table = []\<rparr>"
    using av [of "''abc''"] abc ne by blast
  have b: "add_user test_env (POST (sample_user(Age \<mapsto> ''0''))) [] =
      \<lparr>resp = Render_add, flashed = [(Age_range, Error)], table = []\<rparr>"
    using av [of "''0''"] zero by simp
  have c: "add_user test_env (POST (sample_user(Age \<mapsto> ''151''))) [] =
      \<lparr>resp = Render_add, flashed = [(Age_range, Error)], table = []\<rparr>"
    using av [of "''151''"] big by simp
  have d: "add_user test_env (POST (sample_user(Age \<mapsto> ''-5''))) [] =
      \<lparr>resp = Render_add, flashed = [(Age_range, Error)], table = []\<rparr>"
    using av [of "''-5''"] neg by simp
  have one: "flashed (add_user test_env (POST (sample_user(Age \<mapsto> ''1''))) []) = [(User_added, Success)]"
    by (simp add: add_user_POST rejected_def first_failing_checks filter_by_email_first_def add_commit_def eval_defs)
  have top: "flashed (add_user test_env (POST (sample_user(Age \<mapsto> ''150''))) []) = [(User_added, Success)]"
    by (simp add: add_user_POST rejected_def first_failing_checks filter_by_email_first_def add_commit_def eval_defs)
  from a b c d one top show ?thesis by blast
qed

subsection \<open>C6: Update with the record's own email\<close>

text \<open>
  C6. Let the table satisfy its constraints, let the row with identifier \<open>i\<close> exist, and let
  the trimmed email of the submitted field set be that row's current email. Then
  \<open>update_user\<close> never flashes the duplicate-email error, whatever the other fields are; and
  if the field set passes the validation checks the update succeeds: the five fields of the
  row are replaced and every other row is as before.
\<close>

theorem update_own_email:
  assumes wf: "wf_table rows"
    and found: "query_get rows i = Some u"
    and own: "strip (form_get f Email) = email u"
  shows "(\<forall>x \<in> set (flashed (update_user e i (POST f) rows)). fst x \<noteq> Email_exists)
     \<and> (\<forall>a. first_failing (checks_in_order (int_max_str_digits e)) f = None \<longrightarrow>
             py_int (int_max_str_digits e) (strip (form_get f Age)) = Some a \<longrightarrow>
             update_user e i (POST f) rows =
               \<lparr>resp = Redirect_index, flashed = [(User_updated, Success)],
                table = map (\<lambda>v. if id' v = i
                     then v\<lparr>first_name := strip (form_get f First_name),
                            last_name := strip (form_get f Last_name),
                            email := strip (form_get f Email),
                            age := a,
                            city := strip (form_get f City)\<rparr>
                     else v) rows\<rparr>)"
proof -
  from found have mem: "u \<in> set rows" and idu: "id' u = i"
    by (auto dest: query_get_Some)
  from wf mem idu have bound: "int i \<le> max_rowid"
    by (auto simp: wf_table_def list_all_iff)
  have first: "filter_by_email_first rows (strip (form_get f Email)) = Some u"
    using wf mem own by (simp add: filter_by_email_first_unique)
  let ?u' = "u\<lparr>first_name := strip (form_get f First_name),
                 last_name := strip (form_get f Last_name),
                 email := strip (form_get f Email),
                 age := the (py_int (int_max_str_digits e) (strip (form_get f Age))),
                 city := strip (form_get f City)\<rparr>"
  have commit: "update_commit rows ?u' =
     Inr (map (\<lambda>v. if id' v = id' ?u'
                     then v\<lparr>first_name := first_name ?u', last_name := last_name ?u',
                            email := email ?u', age := age ?u', city := city ?u'\<rparr>
                     else v) rows)"
    using wf mem own by (intro update_commit_own_email [of rows u]) simp_all
  have out: "update_user e i (POST f) rows =
      (case first_failing (checks_in_order (int_max_str_digits e)) f of
         Some m \<Rightarrow> rejected (Render_update u) m rows
       | None \<Rightarrow> \<lparr>resp = Redirect_index, flashed = [(User_updated, Success)],
                table = map (\<lambda>v. if id' v = i
                     then v\<lparr>first_name := strip (form_get f First_name),
                            last_name := strip (form_get f Last_name),
                            email := strip (form_get f Email),
                            age := the (py_int (int_max_str_digits e) (strip (form_get f Age))),
                            city := strip (form_get f City)\<rparr>
                     else v) rows\<rparr>)"
    using found first idu commit bound by (simp add: update_user_POST split: option.split)
  have "\<forall>x \<in> set (flashed (update_user e i (POST f) rows)). fst x \<noteq> Email_exists"
  proof (cases "first_failing (checks_in_order (int_max_str_digits e)) f")
    case None
    then show ?thesis by (simp add: out)
  next
    case (Some m)
    then have "m \<noteq> Email_exists"
      by (auto simp: first_failing_checks Let_def split: if_splits option.splits)
    with Some show ?thesis by (simp add: out rejected_def)
  qed
  moreover have "\<forall>a. first_failing (checks_in_order (int_max_str_digits e)) f = None \<longrightarrow>
             py_int (int_max_str_digits e) (strip (form_get f Age)) = Some a \<longrightarrow>
             update_user e i (POST f) rows =
               \<lparr>resp = Redirect_index, flashed = [(User_updated, Success)],
                table = map (\<lambda>v. if id' v = i
                     then v\<lparr>first_name := strip (form_get f First_name),
                            last_name := strip (form_get f Last_name),
                            email := strip (form_get f Email),
                            age := a,
                            city := strip (form_get f City)\<rparr>
                     else v) rows\<rparr>"
    by (simp add: out)
  ultimately show ?thesis by blast
qed

text \<open>The test of the same email: the first name changes, the email is submitted back.\<close>

theorem update_own_email_witness:
  "update_user test_env 1 (POST (sample_user(First_name \<mapsto> ''John Updated'')))
       [created_user, user2] =
     \<lparr>resp = Redirect_index, flashed = [(User_updated, Success)],
      table = [created_user\<lparr>first_name := ''John Updated''\<rparr>, user2]\<rparr>"
proof -
  let ?f = "sample_user(First_name \<mapsto> ''John Updated'')"
  have wf: "wf_table [created_user, user2]"
    by (simp add: wf_table_def created_user_def user2_def max_rowid_def)
  have found: "query_get [created_user, user2] 1 = Some created_user"
    by (simp add: query_get_def created_user_def)
  have own: "strip (form_get ?f Email) = email created_user"
    by (simp add: eval_defs)
  have valid: "first_failing (checks_in_order (int_max_str_digits test_env)) ?f = None"
    by (simp add: first_failing_checks eval_defs)
  have age: "py_int (int_max_str_digits test_env) (strip (form_get ?f Age)) = Some 30"
    by (simp add: eval_defs)
  from update_own_email [OF wf found own, of test_env] valid age
  have "update_user test_env 1 (POST ?f) [created_user, user2] =
     \<lparr>resp = Redirect_index, flashed = [(User_updated, Success)],
      table = map (\<lambda>v. if id' v = 1
                     then v\<lparr>first_name := strip (form_get ?f First_name),
                            last_name := strip (form_get ?f Last_name),
                            email := strip (form_get ?f Email),
                            age := 30,
                            city := strip (form_get ?f City)\<rparr>
                     else v) [created_user, user2]\<rparr>"
    by blast
  then show ?thesis
    by (simp add: eval_defs)
qed

subsection \<open>C7: Update with the email of another record\<close>

text \<open>
  C7, as stated, promises the duplicate-email error for every field set whose email is that of
  another row. The validation checks run first: with a one-letter first name the handler
  reports the first name, not the email.
\<close>

theorem update_other_email_counterexample:
  "query_get [created_user, user2] 1 = Some created_user
   \<and> user2 \<in> set [created_user, user2] \<and> user2 \<noteq> created_user
   \<and> strip (form_get (sample_user(First_name \<mapsto> ''J'', Email \<mapsto> ''jane.doe@example.com'')) Email)
       = email user2
   \<and> update_user test_env 1
        (POST (sample_user(First_name \<mapsto> ''J'', Email \<mapsto> ''jane.doe@example.com'')))
        [created_user, user2]
       = \<lparr>resp = Render_update created_user, flashed = [(First_name_length, Error)], table = [created_user, user2]\<rparr>
   \<and> First_name_length \<noteq> Email_exists"
proof -
  have found: "query_get [created_user, user2] 1 = Some created_user"
    by (simp add: query_get_def created_user_def)
  have "first_failing (checks_in_order (int_max_str_digits test_env))
          (sample_user(First_name \<mapsto> ''J'', Email \<mapsto> ''jane.doe@example.com''))
        = Some First_name_length"
    by (simp add: first_failing_checks eval_defs)
  then have "update_user test_env 1
        (POST (sample_user(First_name \<mapsto> ''J'', Email \<mapsto> ''jane.doe@example.com'')))
        [created_user, user2]
       = \<lparr>resp = Render_update created_user, flashed = [(First_name_length, Error)], table = [created_user, user2]\<rparr>"
    using found by (simp add: update_user_POST rejected_def max_rowid_def)
  moreover have "strip (form_get (sample_user(First_name \<mapsto> ''J'',
        Email \<mapsto> ''jane.doe@example.com'')) Email) = email user2"
    by (simp add: eval_defs)
  moreover have "user2 \<noteq> created_user"
    by (simp add: created_user_def user2_def)
  ultimately show ?thesis using found by simp
qed

text \<open>
  C7, amended. Let the table satisfy its constraints, let \<open>r1\<close> be the row with identifier
  \<open>i\<close> and \<open>r2\<close> another row, and let the trimmed email of the field set be the email of
  \<open>r2\<close>. If the field set passes the validation checks, \<open>update_user\<close> fails with the
  duplicate-email error. Whether it passes them or not, the update fails (the form is
  rendered again), the table is as before, and \<open>r1\<close> is still the row of \<open>i\<close>, unmodified.
\<close>

theorem update_other_email:
  assumes wf: "wf_table rows"
    and found: "query_get rows i = Some r1"
    and other: "r2 \<in> set rows" "r2 \<noteq> r1"
    and taken: "strip (form_get f Email) = email r2"
  shows "(first_failing (checks_in_order (int_max_str_digits e)) f = None \<longrightarrow>
            update_user e i (POST f) rows =
                \<lparr>resp = Render_update r1, flashed = [(Email_exists, Error)], table = rows\<rparr>)
     \<and> resp (update_user e i (POST f) rows) = Render_update r1
     \<and> table (update_user e i (POST f) rows) = rows
     \<and> query_get (table (update_user e i (POST f) rows)) i = Some r1"
proof -
  from found have mem: "r1 \<in> set rows" and id1: "id' r1 = i"
    by (auto dest: query_get_Some)
  from wf mem id1 have bound: "int i \<le> max_rowid"
    by (auto simp: wf_table_def list_all_iff)
  have "id' r2 \<noteq> i"
    using wf mem other id1 by (auto dest: unique_id)
  moreover have "filter_by_email_first rows (strip (form_get f Email)) = Some r2"
    using wf other(1) taken by (simp add: filter_by_email_first_unique)
  ultimately have "update_user e i (POST f) rows =
      (case first_failing (checks_in_order (int_max_str_digits e)) f of
         Some m \<Rightarrow>
             \<lparr>resp = Render_update r1, flashed = [(m, Error)], table = rows\<rparr>
       | None \<Rightarrow>
           \<lparr>resp = Render_update r1, flashed = [(Email_exists, Error)], table = rows\<rparr>)"
    using found bound by (simp add: update_user_POST rejected_def split: option.split)
  with found show ?thesis
    by (simp add: rejected_def split: option.split)
qed

text \<open>The test of the duplicate email: the first user is given the email of the second.\<close>

theorem update_other_email_witness:
  "update_user test_env 1 (POST (sample_user(Email \<mapsto> ''jane.doe@example.com'')))
       [created_user, user2]
       = \<lparr>resp = Render_update created_user, flashed = [(Email_exists, Error)], table = [created_user, user2]\<rparr>
   \<and> query_get [created_user, user2] 1 = Some created_user"
proof -
  let ?f = "sample_user(Email \<mapsto> ''jane.doe@example.com'')"
  have wf: "wf_table [created_user, user2]"
    by (simp add: wf_table_def created_user_def user2_def max_rowid_def)
  have found: "query_get [created_user, user2] 1 = Some created_user"
    by (simp add: query_get_def created_user_def)
  have other: "user2 \<in> set [created_user, user2]" "user2 \<noteq> created_user"
    by (simp_all add: created_user_def user2_def)
  have taken: "strip (form_get ?f Email) = email user2"
    by (simp add: eval_defs)
  have valid: "first_failing (checks_in_order (int_max_str_digits test_env)) ?f = None"
    by (simp add: first_failing_checks eval_defs)
  from update_other_email [OF wf found other taken, of test_env] valid found
  show ?thesis by simp
qed

subsection \<open>C8: what a successful Update changes\<close>

text \<open>
  C8. Whenever \<open>update_user\<close> succeeds (it redirects to the index), the request was a POST of
  a field set whose age parses, the table has as many rows as before, the row with
  identifier \<open>i\<close> has its five editable fields replaced by the trimmed strings and the
  parsed age while its identifier and creation time are as before, and every row with
  another identifier is unchanged.
\<close>

theorem update_frame:
  assumes "resp (update_user e i req rows) = Redirect_index"
  shows "\<exists>f a. req = POST f
     \<and> py_int (int_max_str_digits e) (strip (form_get f Age)) = Some a
     \<and> length (table (update_user e i req rows)) = length rows
     \<and> (\<forall>k < length rows.
           (id' (rows ! k) = i \<longrightarrow>
              table (update_user e i req rows) ! k =
                \<lparr>id' = id' (rows ! k),
                 first_name = strip (form_get f First_name),
                 last_name = strip (form_get f Last_name),
                 email = strip (form_get f Email),
                 age = a,
                 city = strip (form_get f City),
                 created_at = created_at (rows ! k)\<rparr>)
         \<and> (id' (rows ! k) \<noteq> i \<longrightarrow>
              table (update_user e i req rows) ! k = rows ! k))"
proof -
  from update_user_success [OF assms]
  obtain f u a where req: "req = POST f"
    and found: "query_get rows i = Some u"
    and a: "py_int (int_max_str_digits e) (strip (form_get f Age)) = Some a"
    and out: "update_user e i req rows =
         \<lparr>resp = Redirect_index, flashed = [(User_updated, Success)],
          table = map (\<lambda>v. if id' v = i
                     then v\<lparr>first_name := strip (form_get f First_name),
                            last_name := strip (form_get f Last_name),
                            email := strip (form_get f Email),
                            age := a,
                            city := strip (form_get f City)\<rparr>
                     else v) rows\<rparr>"
    by blast
  have "length (table (update_user e i req rows)) = length rows"
    by (simp add: out)
  moreover have "\<forall>k < length rows.
           (id' (rows ! k) = i \<longrightarrow>
              table (update_user e i req rows) ! k =
                \<lparr>id' = id' (rows ! k),
                 first_name = strip (form_get f First_name),
                 last_name = strip (form_get f Last_name),
                 email = strip (form_get f Email),
                 age = a,
                 city = strip (form_get f City),
                 created_at = created_at (rows ! k)\<rparr>)
         \<and> (id' (rows ! k) \<noteq> i \<longrightarrow>
              table (update_user e i req rows) ! k = rows ! k)"
    by (simp add: out)
  ultimately show ?thesis using req a by blast
qed

text \<open>The test of a valid update, on a table of two users.\<close>

theorem update_frame_witness:
  "resp (update_user test_env 1
      (POST [First_name \<mapsto> ''Jane'', Last_name \<mapsto> ''Smith'',
             Email \<mapsto> ''jane.smith@example.com'', Age \<mapsto> ''25'', City \<mapsto> ''Los Angeles''])
      [created_user, user2]) = Redirect_index
   \<and> table (update_user test_env 1
      (POST [First_name \<mapsto> ''Jane'', Last_name \<mapsto> ''Smith'',
             Email \<mapsto> ''jane.smith@example.com'', Age \<mapsto> ''25'', City \<mapsto> ''Los Angeles''])
      [created_user, user2]) ! 0 =
       \<lparr>id' = 1, first_name = ''Jane'', last_name = ''Smith'',
        email = ''jane.smith@example.com'', age = 25, city = ''Los Angeles'', created_at = 1000\<rparr>
   \<and> table (update_user test_env 1
      (POST [First_name \<mapsto> ''Jane'', Last_name \<mapsto> ''Smith'',
             Email \<mapsto> ''jane.smith@example.com'', Age \<mapsto> ''25'', City \<mapsto> ''Los Angeles''])
      [created_user, user2]) ! 1 = user2"
proof -
  let ?f = "[First_name \<mapsto> ''Jane'', Last_name \<mapsto> ''Smith'',
             Email \<mapsto> ''jane.smith@example.com'', Age \<mapsto> ''25'', City \<mapsto> ''Los Angeles'']"
  let ?out = "update_user test_env 1 (POST ?f) [created_user, user2]"
  have found: "query_get [created_user, user2] 1 = Some created_user"
    by (simp add: query_get_def created_user_def)
  have valid: "first_failing (checks_in_order (int_max_str_digits test_env)) ?f = None"
    by (simp add: first_failing_checks eval_defs)
  have free: "filter_by_email_first [created_user, user2] (strip (form_get ?f Email)) = None"
    by (simp add: filter_by_email_first_def eval_defs)
  have ok: "resp ?out = Redirect_index"
    using found valid free
    by (simp add: update_user_POST update_commit_def eval_defs max_rowid_def)
  from update_frame [OF ok]
  obtain g a where g: "POST ?f = POST g"
    and a: "py_int (int_max_str_digits test_env) (strip (form_get g Age)) = Some a"
    and rows: "\<forall>k < length [created_user, user2].
           (id' ([created_user, user2] ! k) = 1 \<longrightarrow>
              table ?out ! k =
                \<lparr>id' = id' ([created_user, user2] ! k),
                 first_name = strip (form_get g First_name),
                 last_name = strip (form_get g Last_name),
                 email = strip (form_get g Email),
                 age = a,
                 city = strip (form_get g City),
                 created_at = created_at ([created_user, user2] ! k)\<rparr>)
         \<and> (id' ([created_user, user2] ! k) \<noteq> 1 \<longrightarrow>
              table ?out ! k = [created_user, user2] ! k)"
    by blast
  from g have g': "g = ?f" by simp
  from a have a': "a = 25" by (simp add: g' eval_defs)
  from rows have "table ?out ! 0 =
       \<lparr>id' = 1, first_name = ''Jane'', last_name = ''Smith'',
        email = ''jane.smith@example.com'', age = 25, city = ''Los Angeles'', created_at = 1000\<rparr>"
    by (simp add: g' a' eval_defs)
  moreover from rows have "table ?out ! 1 = user2"
    by (simp add: g' a' eval_defs)
  ultimately show ?thesis using ok by simp
qed

subsection \<open>C9: the length of the email\<close>

text \<open>
  C9 says that no record with an email of more than 120 characters is ever persisted. The
  column is declared \<open>String(120)\<close>, but neither handler checks the length of the email (as
  both do for the names and the city, against their \<open>String(50)\<close>), and the SQLite table
  does not enforce the declared length. The sample user with an email of 121 characters is
  added.
\<close>

theorem long_email_persisted:
  "length (replicate 109 (CHR ''a'') @ ''@example.com'') = 121
   \<and> add_user test_env
         (POST (sample_user(Email \<mapsto> replicate 109 (CHR ''a'') @ ''@example.com''))) [] =
       \<lparr>resp = Redirect_index, flashed = [(User_added, Success)],
        table = [\<lparr>id' = 1, first_name = ''John'', last_name = ''Doe'',
                  email = replicate 109 (CHR ''a'') @ ''@example.com'',
                  age = 30, city = ''New York'', created_at = 2000\<rparr>]\<rparr>"
  by code_simp

subsection \<open>C10: Delete, then Read\<close>

text \<open>
  C10 says that deleting an absent identifier yields the not-found signal. The route
  \<open>/delete/<int:user_id>\<close> accepts every run of digits, and \<open>get_or_404\<close> (line 253) is
  called before the \<open>try\<close>: for the identifier \<open>9223372036854775808\<close>, which is \<open>2 ^ 63\<close> and
  which no row can have, the lookup raises \<open>OverflowError\<close> while binding the identifier,
  and the answer is the error page (status 500), not the not-found page. The table is left
  as it was. (For every identifier up to \<^const>\<open>max_rowid\<close> the claim holds:
  \<open>delete_user_then_view\<close>.)
\<close>

theorem delete_absent_overflow:
  "query_get [created_user] 9223372036854775808 = None
   \<and> delete_user 9223372036854775808 [created_user] =
       \<lparr>resp = Server_error, flashed = [], table = [created_user]\<rparr>
   \<and> delete_user 9223372036854775808 [created_user] \<noteq>
       \<lparr>resp = Not_found, flashed = [], table = [created_user]\<rparr>"
  by (simp add: delete_user_def get_or_404_def max_rowid_def query_get_def created_user_def)

end
